theory Spec2Isabelle
  imports Complex_Main "HOL-Library.Word" "HOL-Library.List_Lexorder" "HOL-Library.Char_ord" "HOL-Library.Multiset"
begin

section \<open>Python values and exceptions\<close>

text \<open>
  Every exception the service raises itself is a Python \<open>ValueError\<close> carrying a message;
  the other constructors are the exceptions the interpreter and its built-ins raise in the
  modelled statements. \<open>KeyError\<close> carries the missing key, the others their message.
\<close>

datatype py_error =
    ValueError string
  | TypeError string
  | KeyError int
  | OverflowError string
  | ZeroDivisionError string

section \<open>FactorialOperation\<close>

text \<open>
  \<open>for i in range(2, n + 1): result *= i; if result > 10**300: raise ValueError(...)\<close>.
  The loop variable runs while \<open>i < n + 1\<close>; the raise leaves the loop at once.
\<close>

function fact_loop :: "int \<Rightarrow> int \<Rightarrow> int \<Rightarrow> py_error + int" where
  "fact_loop i n result =
     (if i < n + 1 then
        (let result' = result * i in
         if result' > 10 ^ 300 then Inl (ValueError ''Factorial result too large'')
         else fact_loop (i + 1) n result')
      else Inr result)"
  by pat_completeness auto
termination
  by (relation "measure (\<lambda>(i, n, result). nat (n + 1 - i))") auto

declare fact_loop.simps [simp del]

definition factorial_execute :: "int \<Rightarrow> py_error + int" where
  "factorial_execute n =
     (if n = 0 \<or> n = 1 then Inr 1 else fact_loop 2 n 1)"

section \<open>FibonacciOperation\<close>

text \<open>
  The instance attribute \<open>_memo\<close> is a dictionary from integers to integers, created as
  \<open>{0: 0, 1: 1}\<close> and kept across calls; the model passes it in and returns it updated.
\<close>

type_synonym memo = "int \<rightharpoonup> int"

definition memo_init :: memo where
  "memo_init = [0 \<mapsto> 0, 1 \<mapsto> 1]"

text \<open>
  The loop \<open>for i in range(2, n + 1)\<close> of \<open>_fibonacci_memo\<close>, with the locals \<open>a\<close>, \<open>b\<close> and
  the dictionary as state. A subscript on a missing key raises \<open>KeyError\<close>; the tuple
  \<open>self._memo[i-1], self._memo[i]\<close> is evaluated left to right.
\<close>

function fib_loop :: "int \<Rightarrow> int \<Rightarrow> int \<Rightarrow> int \<Rightarrow> memo \<Rightarrow> py_error option \<times> memo" where
  "fib_loop i n a b m =
     (if i < n + 1 then
        (case m i of
           None \<Rightarrow> fib_loop (i + 1) n b (a + b) (m(i \<mapsto> a + b))
         | Some y \<Rightarrow>
             (case m (i - 1) of
                None \<Rightarrow> (Some (KeyError (i - 1)), m)
              | Some x \<Rightarrow> fib_loop (i + 1) n x y m))
      else (None, m))"
  by pat_completeness auto
termination
  by (relation "measure (\<lambda>(i, n, a, b, m). nat (n + 1 - i))") auto

declare fib_loop.simps [simp del]

definition fibonacci_memo :: "int \<Rightarrow> memo \<Rightarrow> (py_error + int) \<times> memo" where
  "fibonacci_memo n m =
     (case m n of
        Some v \<Rightarrow> (Inr v, m)
      | None \<Rightarrow>
          if n < 2 then (Inr n, m)
          else
            (case fib_loop 2 n 0 1 m of
               (Some e, m') \<Rightarrow> (Inl e, m')
             | (None, m') \<Rightarrow>
                 (case m' n of
                    None \<Rightarrow> (Inl (KeyError n), m')
                  | Some v \<Rightarrow> (Inr v, m'))))"

text \<open>
  The Fibonacci numbers as the recurrence defines them, to compare the loop against.
\<close>

fun fib_seq :: "nat \<Rightarrow> int" where
  "fib_seq 0 = 0"
| "fib_seq (Suc 0) = 1"
| "fib_seq (Suc (Suc k)) = fib_seq k + fib_seq (Suc k)"

text \<open>
  The dictionary that holds exactly the Fibonacci numbers of the indices \<open>0..k\<close>: the
  states \<open>_memo\<close> passes through, starting from \<open>memo_upto 1\<close>.
\<close>

definition memo_upto :: "int \<Rightarrow> memo" where
  "memo_upto k = (\<lambda>j. if 0 \<le> j \<and> j \<le> k then Some (fib_seq (nat j)) else None)"

text \<open>
  The dictionaries an instance can hold: the initial one, and whatever a call of
  \<open>_fibonacci_memo\<close> (with any integer argument) leaves behind.
\<close>

inductive memo_reachable :: "memo \<Rightarrow> bool" where
  init: "memo_reachable memo_init"
| call: "memo_reachable m \<Longrightarrow> memo_reachable (snd (fibonacci_memo n m))"

text \<open>
  The recurrence unrolled from the bottom, a linear-time way to evaluate \<open>fib_seq\<close> at a
  numeral.
\<close>

fun fib_iter :: "nat \<Rightarrow> int \<Rightarrow> int \<Rightarrow> int" where
  "fib_iter 0 a b = a"
| "fib_iter (Suc k) a b = fib_iter k b (a + b)"

section \<open>JSON text\<close>

text \<open>
  Parameters are modelled with integer values: a parameter dictionary is a list of
  (name, value) pairs in insertion order, with distinct names. A result is an integer or
  some other Python object (a float, for a power with a negative exponent), kept opaque.
\<close>

type_synonym parameters = "(string \<times> int) list"

datatype 'o pyval = PyInt int | PyOther 'o

text \<open>
  What the model takes from the Python library: \<open>sha256\<close> is
  \<open>hashlib.sha256(s.encode()).digest()\<close> as a 256-bit word; \<open>pow_float\<close> is the built-in
  \<open>pow\<close> on two integers with a negative exponent, where it computes in floating point;
  \<open>dumps_other\<close> is \<open>json.dumps\<close> on an object that is not an integer; \<open>loads_other\<close> is
  \<open>json.loads\<close> on a text that is not an integer literal, with \<open>None\<close> for JSON \<open>null\<close>.
\<close>

record 'o python =
  sha256 :: "string \<Rightarrow> 256 word"
  pow_float :: "int \<Rightarrow> int \<Rightarrow> py_error + 'o"
  dumps_other :: "'o \<Rightarrow> string"
  loads_other :: "string \<Rightarrow> py_error + 'o pyval option"

subsection \<open>Integers\<close>

definition digit_char :: "nat \<Rightarrow> char" where
  "digit_char d = char_of (48 + d)"

function show_nat :: "nat \<Rightarrow> string" where
  "show_nat n = (if n < 10 then [digit_char n] else show_nat (n div 10) @ [digit_char (n mod 10)])"
  by pat_completeness auto
termination
  by (relation "measure (\<lambda>n. n)") auto

declare show_nat.simps [simp del]

definition show_int :: "int \<Rightarrow> string" where
  "show_int i = (if i < 0 then CHR ''-'' # show_nat (nat (- i)) else show_nat (nat i))"

definition is_digit :: "char \<Rightarrow> bool" where
  "is_digit c = (48 \<le> (of_char c :: nat) \<and> (of_char c :: nat) \<le> 57)"

definition is_json_nat :: "string \<Rightarrow> bool" where
  "is_json_nat ds = (ds \<noteq> [] \<and> list_all is_digit ds \<and> (1 < length ds \<longrightarrow> hd ds \<noteq> CHR ''0''))"

definition is_json_int :: "string \<Rightarrow> bool" where
  "is_json_int s = (case s of [] \<Rightarrow> False | c # ds \<Rightarrow> if c = CHR ''-'' then is_json_nat ds else is_json_nat s)"

definition read_nat :: "string \<Rightarrow> nat" where
  "read_nat ds = foldl (\<lambda>a c. 10 * a + (of_char c - 48)) 0 ds"

definition read_int :: "string \<Rightarrow> int" where
  "read_int s = (case s of [] \<Rightarrow> 0 | c # ds \<Rightarrow> if c = CHR ''-'' then - int (read_nat ds) else int (read_nat s))"

subsection \<open>Results\<close>

definition json_dumps :: "'o python \<Rightarrow> 'o pyval \<Rightarrow> string" where
  "json_dumps py v = (case v of PyInt i \<Rightarrow> show_int i | PyOther x \<Rightarrow> dumps_other py x)"

definition json_loads :: "'o python \<Rightarrow> string \<Rightarrow> py_error + 'o pyval option" where
  "json_loads py s = (if is_json_int s then Inr (Some (PyInt (read_int s))) else loads_other py s)"

subsection \<open>Parameter dictionaries\<close>

text \<open>
  \<open>json.dumps\<close> writes a key between double quotes with the escapes of
  \<open>encode_basestring_ascii\<close>: the backslash, the quote and five control characters have
  two-character escapes, every other character outside \<open>' '..'~'\<close> is written
  \<open>\u00XX\<close>. Characters are code points below 256.
\<close>

definition hex_digit :: "nat \<Rightarrow> char" where
  "hex_digit d = (if d < 10 then char_of (48 + d) else char_of (87 + d))"

definition json_escape_char :: "char \<Rightarrow> string" where
  "json_escape_char c =
     (if c = CHR 0x5C then [CHR 0x5C, CHR 0x5C]
      else if c = CHR 0x22 then [CHR 0x5C, CHR 0x22]
      else if c = CHR 0x08 then [CHR 0x5C, CHR ''b'']
      else if c = CHR 0x0C then [CHR 0x5C, CHR ''f'']
      else if c = CHR 0x0A then [CHR 0x5C, CHR ''n'']
      else if c = CHR 0x0D then [CHR 0x5C, CHR ''r'']
      else if c = CHR 0x09 then [CHR 0x5C, CHR ''t'']
      else if 0x20 \<le> (of_char c :: nat) \<and> (of_char c :: nat) \<le> 0x7E then [c]
      else [CHR 0x5C, CHR ''u'', CHR ''0'', CHR ''0'',
            hex_digit (of_char c div 16), hex_digit (of_char c mod 16)])"

definition json_string :: "string \<Rightarrow> string" where
  "json_string s = CHR 0x22 # concat (map json_escape_char s) @ [CHR 0x22]"

definition json_item :: "string \<times> int \<Rightarrow> string" where
  "json_item kv = json_string (fst kv) @ '': '' @ show_int (snd kv)"

fun join :: "string \<Rightarrow> string list \<Rightarrow> string" where
  "join sep [] = []"
| "join sep [x] = x"
| "join sep (x # y # ys) = x @ sep @ join sep (y # ys)"

text \<open>\<open>json.dumps(parameters)\<close>: the items in insertion order.\<close>

definition json_dumps_dict :: "parameters \<Rightarrow> string" where
  "json_dumps_dict ps = ''{'' @ join '', '' (map json_item ps) @ ''}''"

text \<open>\<open>json.dumps(parameters, sort_keys=True)\<close>: the items sorted by key.\<close>

definition json_dumps_sorted :: "parameters \<Rightarrow> string" where
  "json_dumps_sorted ps = json_dumps_dict (sort_key fst ps)"

section \<open>CacheManager: the cache key\<close>

text \<open>\<open>hexdigest()\<close>: the 256 bits as 64 lowercase hexadecimal digits.\<close>

fun hex_fixed :: "nat \<Rightarrow> nat \<Rightarrow> string" where
  "hex_fixed 0 n = []"
| "hex_fixed (Suc k) n = hex_fixed k (n div 16) @ [hex_digit (n mod 16)]"

definition hexdigest :: "256 word \<Rightarrow> string" where
  "hexdigest w = hex_fixed 64 (unat w)"

text \<open>The text that is hashed, \<open>f"{operation}:{json.dumps(parameters, sort_keys=True)}"\<close>.\<close>

definition key_data :: "string \<Rightarrow> parameters \<Rightarrow> string" where
  "key_data opn ps = opn @ '':'' @ json_dumps_sorted ps"

definition generate_cache_key :: "(string \<Rightarrow> 256 word) \<Rightarrow> string \<Rightarrow> parameters \<Rightarrow> string" where
  "generate_cache_key sha opn ps = hexdigest (sha (key_data opn ps))"

section \<open>CacheEntry and the cache store\<close>

text \<open>
  A row of the table \<open>cache_entries\<close>. The column \<open>id\<close> is called \<open>entry_id\<close> here.
  Datetimes are microseconds on one time line; \<open>expires_at\<close> is nullable.
\<close>

record cache_entry =
  entry_id :: nat
  operation :: string
  parameters :: string
  cache_key :: string
  result :: string
  created_at :: int
  expires_at :: "int option"
  hit_count :: int

type_synonym database = "cache_entry list"

text \<open>
  The table declares \<open>id\<close> as primary key and \<open>cache_key\<close> as unique: the database
  holds no two rows with the same \<open>id\<close> or the same \<open>cache_key\<close>.
\<close>

definition db_wf :: "database \<Rightarrow> bool" where
  "db_wf db = (distinct (map entry_id db) \<and> distinct (map cache_key db))"

text \<open>
  What the store does during one call of \<open>get\<close> or \<open>set\<close>: it works, or the statement
  \<open>db.execute\<close> raises, or \<open>db.commit\<close> raises. Both calls are inside \<open>try\<close>; an uncommitted
  change is not in the database.
\<close>

datatype store_fault = NoFault | ExecuteFails | CommitFails

record cache_manager =
  default_ttl_hours :: int

definition timedelta_hours :: "int \<Rightarrow> int" where
  "timedelta_hours h = h * 3600000000"

text \<open>
  The SQL condition \<open>expires_at > now\<close>: a comparison with \<open>NULL\<close> is not true, so a row
  without expiry does not satisfy it.
\<close>

definition expires_after :: "int \<Rightarrow> cache_entry \<Rightarrow> bool" where
  "expires_after now e = (case expires_at e of None \<Rightarrow> False | Some t \<Rightarrow> now < t)"

text \<open>A change of the attributes of the loaded row, written back by its primary key.\<close>

definition update_row :: "nat \<Rightarrow> (cache_entry \<Rightarrow> cache_entry) \<Rightarrow> database \<Rightarrow> database" where
  "update_row i f db = map (\<lambda>r. if entry_id r = i then f r else r) db"

definition next_id :: "database \<Rightarrow> nat" where
  "next_id db = Suc (foldr max (map entry_id db) 0)"

text \<open>
  \<open>CacheManager.get\<close>. \<open>scalar_one_or_none\<close> gives the row, or \<open>None\<close> when there is none,
  and raises when there are several; every exception inside \<open>try\<close> ends in \<open>return None\<close>.
  \<open>hit_count\<close> is committed before the stored text is decoded.
\<close>

definition cache_get ::
  "'o python \<Rightarrow> database \<Rightarrow> int \<Rightarrow> store_fault \<Rightarrow> string \<Rightarrow> parameters
     \<Rightarrow> 'o pyval option \<times> database" where
  "cache_get py db now fault opn ps =
     (let key = generate_cache_key (sha256 py) opn ps in
      if fault = ExecuteFails then (None, db)
      else
        case filter (\<lambda>e. cache_key e = key \<and> expires_after now e) db of
          [] \<Rightarrow> (None, db)
        | [e] \<Rightarrow>
            if fault = CommitFails then (None, db)
            else
              let db' = update_row (entry_id e) (\<lambda>r. r\<lparr>hit_count := hit_count r + 1\<rparr>) db in
              (case json_loads py (result e) of
                 Inl err \<Rightarrow> (None, db')
               | Inr v \<Rightarrow> (v, db'))
        | e # e' # es \<Rightarrow> (None, db))"

text \<open>\<open>ttl_hours or self.default_ttl_hours\<close>: the default for \<open>None\<close> and for 0.\<close>

definition ttl_or_default :: "cache_manager \<Rightarrow> int option \<Rightarrow> int" where
  "ttl_or_default cm ttl_hours =
     (case ttl_hours of
        None \<Rightarrow> default_ttl_hours cm
      | Some h \<Rightarrow> if h = 0 then default_ttl_hours cm else h)"

text \<open>
  \<open>CacheManager.set\<close>. A new row gets \<open>created_at\<close> and \<open>hit_count\<close> from the column
  defaults. An exception inside \<open>try\<close> is logged and the transaction rolled back.
\<close>

definition cache_set ::
  "'o python \<Rightarrow> cache_manager \<Rightarrow> database \<Rightarrow> int \<Rightarrow> store_fault \<Rightarrow> string \<Rightarrow> parameters
     \<Rightarrow> 'o pyval \<Rightarrow> int option \<Rightarrow> database" where
  "cache_set py cm db now fault opn ps res ttl_hours =
     (let key = generate_cache_key (sha256 py) opn ps;
          ttl = ttl_or_default cm ttl_hours;
          expires = now + timedelta_hours ttl
      in
      if fault = ExecuteFails then db
      else
        case filter (\<lambda>e. cache_key e = key) db of
          [] \<Rightarrow>
            if fault = CommitFails then db
            else db @ [\<lparr>entry_id = next_id db, operation = opn,
                        parameters = json_dumps_dict ps, cache_key = key,
                        result = json_dumps py res, created_at = now,
                        expires_at = Some expires, hit_count = 0\<rparr>]
        | [e] \<Rightarrow>
            if fault = CommitFails then db
            else update_row (entry_id e)
                   (\<lambda>r. r\<lparr>result := json_dumps py res, expires_at := Some expires,
                          parameters := json_dumps_dict ps\<rparr>) db
        | e # e' # es \<Rightarrow> db)"

text \<open>A sequence of calls of the cache store, each with its clock reading and its fault.\<close>

datatype 'o cache_op =
    Get int store_fault string parameters
  | Put int store_fault string parameters "'o pyval" "int option"

fun apply_cache_op :: "'o python \<Rightarrow> cache_manager \<Rightarrow> database \<Rightarrow> 'o cache_op \<Rightarrow> database" where
  "apply_cache_op py cm db (Get now fault opn ps) = snd (cache_get py db now fault opn ps)"
| "apply_cache_op py cm db (Put now fault opn ps res ttl_hours) =
     cache_set py cm db now fault opn ps res ttl_hours"

text \<open>
  The relation between a database and a later one in which every row is still there, at
  its place, with its \<open>id\<close> and \<open>cache_key\<close>, and with a \<open>hit_count\<close> that is not smaller.
\<close>

definition rows_kept :: "database \<Rightarrow> database \<Rightarrow> bool" where
  "rows_kept db db' =
     (length db \<le> length db' \<and>
      list_all2 (\<lambda>e e'. entry_id e' = entry_id e \<and> cache_key e' = cache_key e
                         \<and> hit_count e \<le> hit_count e')
        db (take (length db) db'))"

definition run_cache_ops :: "'o python \<Rightarrow> cache_manager \<Rightarrow> database \<Rightarrow> 'o cache_op list \<Rightarrow> database" where
  "run_cache_ops py cm db ops = foldl (apply_cache_op py cm) db ops"

section \<open>The operation classes\<close>

text \<open>
  The three subclasses of \<open>MathOperationBase\<close>. Only a \<open>FibonacciOperation\<close> has a state,
  its dictionary \<open>_memo\<close>.
\<close>

datatype math_operation = PowerOperation | FibonacciOperation memo | FactorialOperation

fun get_operation_name :: "math_operation \<Rightarrow> string" where
  "get_operation_name PowerOperation = ''power''"
| "get_operation_name (FibonacciOperation m) = ''fibonacci''"
| "get_operation_name FactorialOperation = ''factorial''"

text \<open>
  \<open>PowerOperation.execute\<close> on two integers. With an exponent that is not negative \<open>pow\<close>
  is exact; with a negative one it computes in floating point and may raise. The result is
  never a \<open>complex\<close>, so the \<open>isinstance\<close> test does not fire. \<open>except OverflowError\<close>
  catches that exception only.
\<close>

definition power_execute :: "'o python \<Rightarrow> int \<Rightarrow> int \<Rightarrow> py_error + 'o pyval" where
  "power_execute py base exponent =
     (if 0 \<le> exponent then Inr (PyInt (base ^ nat exponent))
      else
        case pow_float py base exponent of
          Inl (OverflowError msg) \<Rightarrow> Inl (ValueError ''Result too large to compute'')
        | Inl e \<Rightarrow> Inl e
        | Inr x \<Rightarrow> Inr (PyOther x))"

text \<open>
  The call \<open>operation.execute(**parameters)\<close> binds the items of the dictionary to the
  named arguments of the method: a name the method does not have, or an argument without
  an item, raises \<open>TypeError\<close>.
\<close>

definition quoted :: "string \<Rightarrow> string" where
  "quoted s = [CHR 0x27] @ s @ [CHR 0x27]"

definition unexpected_keyword :: "string \<Rightarrow> string \<Rightarrow> py_error" where
  "unexpected_keyword fname k =
     TypeError (fname @ ''() got an unexpected keyword argument '' @ quoted k)"

definition missing_argument :: "string \<Rightarrow> string \<Rightarrow> py_error" where
  "missing_argument fname a =
     TypeError (fname @ ''() missing 1 required positional argument: '' @ quoted a)"

definition missing_arguments :: "string \<Rightarrow> string \<Rightarrow> string \<Rightarrow> py_error" where
  "missing_arguments fname a b =
     TypeError (fname @ ''() missing 2 required positional arguments: '' @ quoted a
                @ '' and '' @ quoted b)"

definition bind1 :: "string \<Rightarrow> string \<Rightarrow> parameters \<Rightarrow> py_error + int" where
  "bind1 fname a ps =
     (case filter (\<lambda>k. k \<noteq> a) (map fst ps) of
        k # ks \<Rightarrow> Inl (unexpected_keyword fname k)
      | [] \<Rightarrow>
          (case map_of ps a of
             None \<Rightarrow> Inl (missing_argument fname a)
           | Some v \<Rightarrow> Inr v))"

definition bind2 :: "string \<Rightarrow> string \<Rightarrow> string \<Rightarrow> parameters \<Rightarrow> py_error + int \<times> int" where
  "bind2 fname a b ps =
     (case filter (\<lambda>k. k \<noteq> a \<and> k \<noteq> b) (map fst ps) of
        k # ks \<Rightarrow> Inl (unexpected_keyword fname k)
      | [] \<Rightarrow>
          (case (map_of ps a, map_of ps b) of
             (Some x, Some y) \<Rightarrow> Inr (x, y)
           | (None, Some y) \<Rightarrow> Inl (missing_argument fname a)
           | (Some x, None) \<Rightarrow> Inl (missing_argument fname b)
           | (None, None) \<Rightarrow> Inl (missing_arguments fname a b)))"

text \<open>
  \<open>execute\<close> of each class: the result or the exception, and the object after the call.
\<close>

fun execute :: "'o python \<Rightarrow> math_operation \<Rightarrow> parameters \<Rightarrow> (py_error + 'o pyval) \<times> math_operation" where
  "execute py PowerOperation ps =
     (case bind2 ''PowerOperation.execute'' ''base'' ''exponent'' ps of
        Inl e \<Rightarrow> (Inl e, PowerOperation)
      | Inr (b, x) \<Rightarrow> (power_execute py b x, PowerOperation))"
| "execute py (FibonacciOperation m) ps =
     (case bind1 ''FibonacciOperation.execute'' ''n'' ps of
        Inl e \<Rightarrow> (Inl e, FibonacciOperation m)
      | Inr n \<Rightarrow>
          (case fibonacci_memo n m of
             (r, m') \<Rightarrow> (map_sum id PyInt r, FibonacciOperation m')))"
| "execute py FactorialOperation ps =
     (case bind1 ''FactorialOperation.execute'' ''n'' ps of
        Inl e \<Rightarrow> (Inl e, FactorialOperation)
      | Inr n \<Rightarrow> (map_sum id PyInt (factorial_execute n), FactorialOperation))"

text \<open>\<open>str(e)\<close>: the message of the exception; for a \<open>KeyError\<close>, the key.\<close>

fun str_of_error :: "py_error \<Rightarrow> string" where
  "str_of_error (ValueError msg) = msg"
| "str_of_error (TypeError msg) = msg"
| "str_of_error (KeyError k) = show_int k"
| "str_of_error (OverflowError msg) = msg"
| "str_of_error (ZeroDivisionError msg) = msg"

section \<open>MathService\<close>

text \<open>
  The registry \<open>self.operations\<close> is a dictionary from names to operation objects, in
  insertion order. An assignment to a key that is there keeps its place.
\<close>

fun dict_set :: "'k \<Rightarrow> 'v \<Rightarrow> ('k \<times> 'v) list \<Rightarrow> ('k \<times> 'v) list" where
  "dict_set k v [] = [(k, v)]"
| "dict_set k v (kv # kvs) = (if fst kv = k then (k, v) # kvs else kv # dict_set k v kvs)"

record math_service =
  operations :: "(string \<times> math_operation) list"
  cache_manager :: cache_manager

definition math_service_init :: math_service where
  "math_service_init =
     \<lparr>operations = [(''power'', PowerOperation),
                    (''fibonacci'', FibonacciOperation memo_init),
                    (''factorial'', FactorialOperation)],
      cache_manager = \<lparr>default_ttl_hours = 24\<rparr>\<rparr>"

definition register_operation :: "math_service \<Rightarrow> math_operation \<Rightarrow> math_service" where
  "register_operation svc opn =
     svc\<lparr>operations := dict_set (get_operation_name opn) opn (operations svc)\<rparr>"

definition get_available_operations :: "math_service \<Rightarrow> string list" where
  "get_available_operations svc = map fst (operations svc)"

text \<open>
  What one dispatch reads from outside: the clock \<open>datetime.utcnow()\<close> in \<open>get\<close> and in
  \<open>set\<close>, the two readings of \<open>time.perf_counter()\<close> around the computation, and the
  behaviour of the store in \<open>get\<close> and in \<open>set\<close>.
\<close>

record dispatch_env =
  get_now :: int
  get_fault :: store_fault
  perf_start :: real
  perf_end :: real
  set_now :: int
  set_fault :: store_fault

text \<open>
  \<open>MathService.execute_operation\<close>: the returned triple or the raised exception, the
  service (an operation object may have changed) and the database after the call. A
  result of an operation is a number, never \<open>None\<close>, so \<open>result is not None\<close> holds.
\<close>

definition execute_operation ::
  "'o python \<Rightarrow> math_service \<Rightarrow> database \<Rightarrow> dispatch_env \<Rightarrow> string \<Rightarrow> parameters \<Rightarrow> bool
     \<Rightarrow> (py_error + 'o pyval \<times> real \<times> bool) \<times> math_service \<times> database" where
  "execute_operation py svc db env operation_name ps use_cache =
     (case map_of (operations svc) operation_name of
        None \<Rightarrow> (Inl (ValueError (''Unsupported operation: '' @ operation_name)), svc, db)
      | Some opn \<Rightarrow>
          (case (if use_cache
                 then cache_get py db (get_now env) (get_fault env) operation_name ps
                 else (None, db)) of
             (Some cached_result, db1) \<Rightarrow> (Inr (cached_result, 0, True), svc, db1)
           | (None, db1) \<Rightarrow>
               (case execute py opn ps of
                  (Inr res, opn') \<Rightarrow>
                    (Inr (res, (perf_end env - perf_start env) * 1000, False),
                     svc\<lparr>operations := dict_set operation_name opn' (operations svc)\<rparr>,
                     if use_cache
                     then cache_set py (cache_manager svc) db1 (set_now env) (set_fault env)
                            operation_name ps res None
                     else db1)
                | (Inl e, opn') \<Rightarrow>
                    (Inl (ValueError (''Operation failed: '' @ str_of_error e)),
                     svc\<lparr>operations := dict_set operation_name opn' (operations svc)\<rparr>,
                     db1))))"

section \<open>Properties of the factorial operation\<close>

lemma fact_loop_spec:
  "2 \<le> i \<Longrightarrow> i \<le> n + 1 \<Longrightarrow> acc = fact (nat (i - 1)) \<Longrightarrow> acc \<le> 10 ^ 300 \<Longrightarrow>
   fact_loop i n acc =
     (if (fact (nat n) :: int) > 10 ^ 300 then Inl (ValueError ''Factorial result too large'')
      else Inr (fact (nat n)))"
proof (induction i n acc rule: fact_loop.induct)
  case (1 i n acc)
  show ?case
  proof (cases "i < n + 1")
    case False
    with "1.prems" show ?thesis by (subst fact_loop.simps) simp
  next
    case True
    have step: "acc * i = fact (nat i)"
    proof -
      have "nat i = Suc (nat (i - 1))" using "1.prems" by simp
      then have "(fact (nat i) :: int) = int (Suc (nat (i - 1))) * fact (nat (i - 1))"
        by (metis fact_Suc)
      with "1.prems" show ?thesis by (simp add: mult.commute)
    qed
    show ?thesis
    proof (cases "acc * i > 10 ^ 300")
      case big: True
      have "(fact (nat i) :: int) \<le> fact (nat n)"
        using True by (intro fact_mono) simp
      with big step have "(fact (nat n) :: int) > 10 ^ 300" by simp
      with True big show ?thesis by (subst fact_loop.simps) simp
    next
      case small: False
      have "fact_loop (i + 1) n (acc * i) =
        (if (fact (nat n) :: int) > 10 ^ 300 then Inl (ValueError ''Factorial result too large'')
         else Inr (fact (nat n)))"
        using "1.IH" [of "acc * i"] True small step "1.prems" by simp
      with True small show ?thesis by (subst fact_loop.simps) simp
    qed
  qed
qed

lemma factorial_execute_spec:
  "0 \<le> n \<Longrightarrow> factorial_execute n =
     (if (fact (nat n) :: int) > 10 ^ 300 then Inl (ValueError ''Factorial result too large'')
      else Inr (fact (nat n)))"
proof -
  assume n: "0 \<le> n"
  consider "n = 0" | "n = 1" | "2 \<le> n" using n by linarith
  then show ?thesis
  proof cases
    case 3
    then have "fact_loop 2 n 1 =
     (if (fact (nat n) :: int) > 10 ^ 300 then Inl (ValueError ''Factorial result too large'')
      else Inr (fact (nat n)))"
      by (intro fact_loop_spec) simp_all
    with 3 show ?thesis by (simp add: factorial_execute_def)
  qed (simp_all add: factorial_execute_def)
qed

lemma fact_166: "(fact 166 :: int) \<le> 10 ^ 300"
  by (simp add: fact_numeral)

lemma fact_167: "(fact 167 :: int) > 10 ^ 300"
  by (simp add: fact_numeral)

lemma factorial_execute_small:
  "0 \<le> n \<Longrightarrow> n \<le> 166 \<Longrightarrow> factorial_execute n = Inr (fact (nat n))"
proof -
  assume n: "0 \<le> n" "n \<le> 166"
  then have "(fact (nat n) :: int) \<le> fact 166" by (intro fact_mono) simp
  with fact_166 have "\<not> (fact (nat n) :: int) > 10 ^ 300" by linarith
  with n show ?thesis by (simp only: factorial_execute_spec if_False)
qed

lemma factorial_execute_large:
  "167 \<le> n \<Longrightarrow> factorial_execute n = Inl (ValueError ''Factorial result too large'')"
proof -
  assume n: "167 \<le> n"
  then have "(fact 167 :: int) \<le> fact (nat n)" by (intro fact_mono) simp
  with fact_167 have "(fact (nat n) :: int) > 10 ^ 300" by linarith
  moreover have "0 \<le> n" using n by simp
  ultimately show ?thesis by (simp only: factorial_execute_spec if_True)
qed

text \<open>
  Claim C1 (as amended). The factorial operation returns \<open>n!\<close> for every \<open>n\<close> from 0 to
  166, a value that does not exceed the ceiling \<open>10^300\<close>, and raises
  \<open>ValueError("Factorial result too large")\<close> for every \<open>n\<close> from 167 on, where the running
  product first exceeds the ceiling; in particular \<open>fact(0) = 1\<close> and \<open>fact(5) = 120\<close>.
\<close>

theorem factorial_execute_ceiling:
  "(0 \<le> n \<and> n \<le> 166 \<longrightarrow> factorial_execute n = Inr (fact (nat n)) \<and> (fact (nat n) :: int) \<le> 10 ^ 300)
   \<and> (167 \<le> n \<longrightarrow> factorial_execute n = Inl (ValueError ''Factorial result too large''))
   \<and> factorial_execute 0 = Inr 1
   \<and> factorial_execute 5 = Inr 120"
proof -
  have a: "factorial_execute 0 = Inr 1" by (simp add: factorial_execute_def)
  have "factorial_execute 5 = Inr (fact (nat 5))" by (rule factorial_execute_small) simp_all
  then have b: "factorial_execute 5 = Inr 120" by (simp add: fact_numeral)
  have c: "(fact (nat n) :: int) \<le> 10 ^ 300" if "n \<le> 166"
  proof -
    have "(fact (nat n) :: int) \<le> fact 166" using that by (intro fact_mono) simp
    with fact_166 show ?thesis by linarith
  qed
  from a b c show ?thesis
    using factorial_execute_small [of n] factorial_execute_large [of n] by blast
qed

theorem factorial_execute_ceiling_witness:
  "factorial_execute 166 = Inr (fact 166) \<and> factorial_execute 171 = Inl (ValueError ''Factorial result too large'')"
  using factorial_execute_ceiling [of 166] factorial_execute_ceiling [of 171] by simp

text \<open>
  Claim C1 as stated fails: \<open>170!\<close> is about \<open>7.26 * 10^306\<close>, above the ceiling, so
  \<open>fact(170)\<close> raises instead of returning a value.
\<close>

theorem factorial_170_fails:
  "factorial_execute 170 = Inl (ValueError ''Factorial result too large'')"
  by (rule factorial_execute_large) simp

text \<open>
  Claim C10. For every negative \<open>n\<close> the range \<open>range(2, n + 1)\<close> is empty, the loop body
  never runs, and the factorial operation returns 1 without raising.
\<close>

theorem factorial_negative:
  "n < 0 \<Longrightarrow> factorial_execute n = Inr 1"
  by (simp add: factorial_execute_def fact_loop.simps [of 2 n 1])

theorem factorial_negative_witness:
  "(-3 :: int) < 0 \<and> factorial_execute (-3) = Inr 1"
  using factorial_negative [of "-3"] by simp

section \<open>Properties of the Fibonacci operation\<close>

lemma memo_init_upto: "memo_init = memo_upto 1"
  by (rule ext) (auto simp: memo_init_def memo_upto_def)

lemma fib_seq_step: "2 \<le> i \<Longrightarrow> fib_seq (nat (i - 2)) + fib_seq (nat (i - 1)) = fib_seq (nat i)"
proof -
  assume i: "2 \<le> i"
  obtain k where k: "nat (i - 2) = k" by simp
  with i have "nat (i - 1) = Suc k" "nat i = Suc (Suc k)" by linarith+
  with k show ?thesis by simp
qed

lemma memo_upto_extend:
  "0 \<le> k \<Longrightarrow> (memo_upto k)(k + 1 \<mapsto> fib_seq (nat (k + 1))) = memo_upto (k + 1)"
  by (rule ext) (auto simp: memo_upto_def)

lemma fib_loop_inv:
  "m = memo_upto k \<Longrightarrow> 1 \<le> k \<Longrightarrow> 2 \<le> i \<Longrightarrow> i \<le> n + 1 \<Longrightarrow> i \<le> k + 1 \<Longrightarrow>
   a = fib_seq (nat (i - 2)) \<Longrightarrow> b = fib_seq (nat (i - 1)) \<Longrightarrow>
   fib_loop i n a b m = (None, memo_upto (max k n))"
proof (induction i n a b m arbitrary: k rule: fib_loop.induct)
  case (1 i n a b m)
  note m = \<open>m = memo_upto k\<close>
  show ?case
  proof (cases "i < n + 1")
    case False
    with "1.prems" have "max k n = k" by simp
    with False m show ?thesis by (subst fib_loop.simps) simp
  next
    case True
    show ?thesis
    proof (cases "i \<le> k")
      case inmemo: True
      with "1.prems" have mi: "m i = Some (fib_seq (nat i))"
        and mi1: "m (i - 1) = Some (fib_seq (nat (i - 1)))"
        by (simp_all add: memo_upto_def)
      have "fib_loop (i + 1) n (fib_seq (nat (i - 1))) (fib_seq (nat i)) m
            = (None, memo_upto (max k n))"
      proof (rule "1.IH"(2) [OF True mi mi1 m])
        show "1 \<le> k" "2 \<le> i + 1" "i + 1 \<le> n + 1" "i + 1 \<le> k + 1"
          using "1.prems" True inmemo by simp_all
        show "fib_seq (nat (i - 1)) = fib_seq (nat (i + 1 - 2))" by simp
        show "fib_seq (nat i) = fib_seq (nat (i + 1 - 1))" by simp
      qed
      with True mi mi1 show ?thesis by (subst fib_loop.simps) simp
    next
      case False
      with "1.prems" have ik: "i = k + 1" by simp
      with "1.prems" have mi: "m i = None" by (simp add: memo_upto_def)
      have ab: "a + b = fib_seq (nat i)" using "1.prems" fib_seq_step [of i] by simp
      have ext: "m(i \<mapsto> a + b) = memo_upto (k + 1)"
        using memo_upto_extend [of k] "1.prems" ik ab by simp
      have "fib_loop (i + 1) n b (a + b) (m(i \<mapsto> a + b))
            = (None, memo_upto (max (k + 1) n))"
      proof (rule "1.IH"(1) [OF True mi ext])
        show "1 \<le> k + 1" "2 \<le> i + 1" "i + 1 \<le> n + 1" "i + 1 \<le> k + 1 + 1"
          using "1.prems" True ik by simp_all
        show "b = fib_seq (nat (i + 1 - 2))" using "1.prems" by simp
        show "a + b = fib_seq (nat (i + 1 - 1))" using ab by simp
      qed
      moreover have "max (k + 1) n = max k n" using True ik by simp
      ultimately show ?thesis using True mi by (subst fib_loop.simps) simp
    qed
  qed
qed

lemma fib_loop_upto:
  "1 \<le> k \<Longrightarrow> 2 \<le> n \<Longrightarrow> fib_loop 2 n 0 1 (memo_upto k) = (None, memo_upto (max k n))"
  by (rule fib_loop_inv) simp_all

lemma fibonacci_memo_upto:
  "1 \<le> k \<Longrightarrow> 0 \<le> n \<Longrightarrow>
   fibonacci_memo n (memo_upto k) = (Inr (fib_seq (nat n)), memo_upto (max k n))"
proof -
  assume k: "1 \<le> k" and n: "0 \<le> n"
  show ?thesis
  proof (cases "n \<le> k")
    case True
    with n have "memo_upto k n = Some (fib_seq (nat n))" by (simp add: memo_upto_def)
    moreover have "max k n = k" using True by simp
    ultimately show ?thesis by (simp add: fibonacci_memo_def)
  next
    case False
    with k have n2: "2 \<le> n" by simp
    from False have none: "memo_upto k n = None" by (simp add: memo_upto_def)
    have loop: "fib_loop 2 n 0 1 (memo_upto k) = (None, memo_upto (max k n))"
      using k n2 by (rule fib_loop_upto)
    have "memo_upto (max k n) n = Some (fib_seq (nat n))"
      using n by (simp add: memo_upto_def)
    with none n2 loop show ?thesis by (simp add: fibonacci_memo_def)
  qed
qed

lemma fibonacci_memo_neg:
  "n < 0 \<Longrightarrow> fibonacci_memo n (memo_upto k) = (Inr n, memo_upto k)"
  by (simp add: fibonacci_memo_def memo_upto_def)


lemma memo_reachable_upto: "memo_reachable m \<Longrightarrow> \<exists>k\<ge>1. m = memo_upto k"
proof (induction rule: memo_reachable.induct)
  case init
  show ?case using memo_init_upto by blast
next
  case (call m n)
  then obtain k where k: "1 \<le> k" "m = memo_upto k" by blast
  show ?case
  proof (cases "n < 0")
    case True
    with k show ?thesis by (auto simp: fibonacci_memo_neg)
  next
    case False
    with k have "snd (fibonacci_memo n m) = memo_upto (max k n)"
      by (simp add: fibonacci_memo_upto)
    moreover have "1 \<le> max k n" using k by simp
    ultimately show ?thesis by blast
  qed
qed

lemma fib_iter_seq: "fib_iter k (fib_seq j) (fib_seq (Suc j)) = fib_seq (j + k)"
proof (induction k arbitrary: j)
  case 0
  show ?case by simp
next
  case (Suc k)
  have "fib_iter (Suc k) (fib_seq j) (fib_seq (Suc j)) = fib_iter k (fib_seq (Suc j)) (fib_seq (Suc (Suc j)))"
    by simp
  also have "\<dots> = fib_seq (Suc j + k)" by (rule Suc.IH)
  finally show ?case by simp
qed

lemma fib_seq_iter: "fib_seq k = fib_iter k 0 1"
  using fib_iter_seq [of k 0] by simp

lemma fib_seq_10: "fib_seq 10 = 55"
  unfolding fib_seq_iter by code_simp

lemma fib_seq_50: "fib_seq 50 = 12586269025"
  unfolding fib_seq_iter by code_simp

lemma fib_seq_1000: "fib_seq 1000 = 43466557686937456435688527675040625802564660517371780402481729089536555417949051890403879840079255169295922593080322634775209689623239873322471161642996440906533187938298969649928516003704476137795166849228875"
  unfolding fib_seq_iter by code_simp

text \<open>
  Claim C8. On every dictionary an instance can hold, the Fibonacci operation returns the
  Fibonacci number of every \<open>n \<ge> 0\<close>; so \<open>fib(0) = 0\<close>, \<open>fib(1) = 1\<close>, \<open>fib(10) = 55\<close>,
  \<open>fib(50) = 12586269025\<close>, and \<open>fib(1000)\<close> returns its value: the computation is the loop
  \<open>fib_loop\<close>, which calls nothing and cannot exhaust the call stack.
\<close>

theorem fibonacci_values:
  "memo_reachable m \<Longrightarrow>
     (0 \<le> n \<longrightarrow> fst (fibonacci_memo n m) = Inr (fib_seq (nat n)))
     \<and> fst (fibonacci_memo 0 m) = Inr 0
     \<and> fst (fibonacci_memo 1 m) = Inr 1
     \<and> fst (fibonacci_memo 10 m) = Inr 55
     \<and> fst (fibonacci_memo 50 m) = Inr 12586269025
     \<and> fst (fibonacci_memo 1000 m) = Inr 43466557686937456435688527675040625802564660517371780402481729089536555417949051890403879840079255169295922593080322634775209689623239873322471161642996440906533187938298969649928516003704476137795166849228875"
proof -
  assume "memo_reachable m"
  then obtain k where k: "1 \<le> k" "m = memo_upto k" using memo_reachable_upto by blast
  have gen: "fst (fibonacci_memo j m) = Inr (fib_seq (nat j))" if "0 \<le> j" for j
    using k that by (simp add: fibonacci_memo_upto)
  have "fst (fibonacci_memo 0 m) = Inr 0" using gen [of 0] by simp
  moreover have "fst (fibonacci_memo 1 m) = Inr 1" using gen [of 1] by simp
  moreover have "fst (fibonacci_memo 10 m) = Inr 55" using gen [of 10] fib_seq_10 by simp
  moreover have "fst (fibonacci_memo 50 m) = Inr 12586269025" using gen [of 50] fib_seq_50 by simp
  moreover have "fst (fibonacci_memo 1000 m) = Inr 43466557686937456435688527675040625802564660517371780402481729089536555417949051890403879840079255169295922593080322634775209689623239873322471161642996440906533187938298969649928516003704476137795166849228875"
    using gen [of 1000] fib_seq_1000 by simp
  ultimately show ?thesis using gen by blast
qed

theorem fibonacci_values_witness:
  "memo_reachable memo_init \<and> fst (fibonacci_memo 10 memo_init) = Inr 55
   \<and> fst (fibonacci_memo 7 memo_init) = Inr 13"
proof -
  have r: "memo_reachable memo_init" by (rule memo_reachable.init)
  have "fib_seq 7 = 13" unfolding fib_seq_iter by code_simp
  with r show ?thesis using fibonacci_values [OF r, of 7] by simp
qed

text \<open>
  Claim C3 (as amended). For every negative \<open>n\<close> the Fibonacci operation raises nothing:
  \<open>n\<close> is not a key of the dictionary, the test \<open>n < 2\<close> holds, and \<open>n\<close> itself is returned,
  with the dictionary unchanged.
\<close>

theorem fibonacci_negative_returns:
  "memo_reachable m \<Longrightarrow> n < 0 \<Longrightarrow> fibonacci_memo n m = (Inr n, m)"
proof -
  assume "memo_reachable m" and n: "n < 0"
  then obtain k where "m = memo_upto k" using memo_reachable_upto by blast
  with n show ?thesis by (simp add: fibonacci_memo_neg)
qed

theorem fibonacci_negative_returns_witness:
  "memo_reachable memo_init \<and> (-5 :: int) < 0 \<and> fibonacci_memo (-5) memo_init = (Inr (-5), memo_init)"
  using fibonacci_negative_returns [OF memo_reachable.init, of "-5"] memo_reachable.init by simp

text \<open>
  Claim C3 as stated fails: \<open>fib(-5)\<close> on a fresh instance returns \<open>-5\<close>.
\<close>

theorem fibonacci_negative_no_error:
  "fst (fibonacci_memo (-5) memo_init) = Inr (-5)"
  by (simp add: fibonacci_memo_def memo_init_def)

section \<open>Properties of the JSON text\<close>

subsection \<open>Decimal digits\<close>


lemma of_char_digit_char: "d < 10 \<Longrightarrow> (of_char (digit_char d) :: nat) = 48 + d"
  by (simp add: digit_char_def)


lemma digit_char_not_minus: "d < 10 \<Longrightarrow> digit_char d \<noteq> CHR ''-''"
proof
  assume "d < 10" and "digit_char d = CHR ''-''"
  then have "(of_char (CHR ''-'') :: nat) = 48 + d" using of_char_digit_char by metis
  then show False by simp
qed
















section \<open>Properties of the cache key\<close>

subsection \<open>The hexadecimal digest\<close>





lemma length_hex_fixed: "length (hex_fixed k n) = k"
  by (induction k arbitrary: n) simp_all

lemma length_hexdigest: "length (hexdigest w) = 64"
  by (simp add: hexdigest_def length_hex_fixed)


subsection \<open>Sorting the items\<close>







subsection \<open>The items determine the text\<close>












section \<open>Properties of the cache store\<close>

lemma update_row_length [simp]: "length (update_row i f db) = length db"
  by (simp add: update_row_def)

lemma update_row_nth:
  "j < length db \<Longrightarrow> update_row i f db ! j = (if entry_id (db ! j) = i then f (db ! j) else db ! j)"
  by (simp add: update_row_def)

lemma filter_singleton_mem: "filter P xs = [e] \<Longrightarrow> e \<in> set xs \<and> P e"
proof -
  assume "filter P xs = [e]"
  then have "e \<in> set (filter P xs)" by simp
  then show ?thesis by simp
qed

lemma filter_unique:
  assumes d: "distinct (map f xs)" and e: "e \<in> set xs" "f e = k"
  shows "filter (\<lambda>x. f x = k) xs = [e]"
  using d e
proof (induction xs)
  case Nil
  then show ?case by simp
next
  case (Cons x xs)
  show ?case
  proof (cases "x = e")
    case True
    with Cons.prems have "k \<notin> f ` set xs" by simp
    then have "\<forall>y\<in>set xs. f y \<noteq> k" by (metis image_eqI)
    then have "filter (\<lambda>x. f x = k) xs = []" by (simp add: filter_empty_conv)
    with True Cons.prems show ?thesis by simp
  next
    case False
    with Cons.prems have "e \<in> set xs" by simp
    moreover from this Cons.prems have "f x \<noteq> k" by (metis distinct.simps(2) image_eqI list.simps(9) set_map)
    ultimately show ?thesis using Cons by simp
  qed
qed


lemma live_rows_cases:
  assumes d: "distinct (map cache_key db)"
  obtains "filter (\<lambda>e. cache_key e = key \<and> expires_after now e) db = []"
  | e where "filter (\<lambda>e. cache_key e = key \<and> expires_after now e) db = [e]"
proof -
  let ?L = "filter (\<lambda>e. cache_key e = key \<and> expires_after now e) db"
  have dL: "distinct (map cache_key ?L)" using d by (rule distinct_map_filter)
  have kL: "\<forall>e\<in>set ?L. cache_key e = key" by simp
  show ?thesis
  proof (cases ?L)
    case Nil
    then show ?thesis using that(1) by simp
  next
    case (Cons e es)
    have "es = []"
    proof (cases es)
      case Nil
      then show ?thesis .
    next
      case (Cons e' es')
      with \<open>?L = e # es\<close> have L: "?L = e # e' # es'" by simp
      from kL have "cache_key e = key" "cache_key e' = key" unfolding L by simp_all
      moreover from dL have "cache_key e \<noteq> cache_key e'" unfolding L by simp
      ultimately show ?thesis by simp
    qed
    with Cons show ?thesis using that(2) by simp
  qed
qed

lemma live_row_unique:
  assumes d: "distinct (map cache_key db)"
    and e: "e \<in> set db" "cache_key e = key" "expires_after now e"
  shows "filter (\<lambda>e. cache_key e = key \<and> expires_after now e) db = [e]"
proof -
  have "filter (\<lambda>e. cache_key e = key \<and> expires_after now e) db
        = filter (expires_after now) (filter (\<lambda>e. cache_key e = key) db)"
    by (simp add: conj_commute)
  also have "filter (\<lambda>e. cache_key e = key) db = [e]" using d e(1,2) by (rule filter_unique)
  finally show ?thesis using e(3) by simp
qed

lemma cache_get_hit:
  assumes "filter (\<lambda>e. cache_key e = generate_cache_key (sha256 py) opn ps \<and> expires_after now e) db = [e]"
  shows "cache_get py db now NoFault opn ps =
           (case json_loads py (result e) of Inl err \<Rightarrow> None | Inr v \<Rightarrow> v,
            update_row (entry_id e) (\<lambda>r. r\<lparr>hit_count := hit_count r + 1\<rparr>) db)"
  using assms by (simp add: cache_get_def Let_def split: sum.splits)

lemma cache_get_miss:
  assumes "filter (\<lambda>e. cache_key e = generate_cache_key (sha256 py) opn ps \<and> expires_after now e) db = []"
  shows "cache_get py db now fault opn ps = (None, db)"
  using assms by (simp add: cache_get_def Let_def)

lemma expires_after_iff: "expires_after now e \<longleftrightarrow> (\<exists>t. expires_at e = Some t \<and> now < t)"
  by (simp add: expires_after_def split: option.splits)

text \<open>
  Claim C2 (as amended). When the store works, \<open>get\<close> returns a value exactly when a row
  with the key exists whose \<open>expires_at\<close> is set and strictly in the future, and the value
  is the decoded \<open>result\<close> of that row. When every row with the key has no \<open>expires_at\<close>
  or one that is not in the future, \<open>get\<close> returns nothing and leaves the rows as they are.
\<close>

theorem cache_get_returns:
  assumes wf: "db_wf db"
  shows "(fst (cache_get py db now NoFault opn ps) = Some v
           \<longleftrightarrow> (\<exists>e\<in>set db. cache_key e = generate_cache_key (sha256 py) opn ps
                  \<and> (\<exists>t. expires_at e = Some t \<and> now < t)
                  \<and> json_loads py (result e) = Inr (Some v)))
         \<and> ((\<forall>e\<in>set db. cache_key e = generate_cache_key (sha256 py) opn ps
                  \<longrightarrow> expires_at e = None \<or> (\<exists>t. expires_at e = Some t \<and> t \<le> now))
              \<longrightarrow> cache_get py db now NoFault opn ps = (None, db))"
proof -
  let ?key = "generate_cache_key (sha256 py) opn ps"
  let ?L = "filter (\<lambda>e. cache_key e = ?key \<and> expires_after now e) db"
  from wf have d: "distinct (map cache_key db)" by (simp add: db_wf_def)
  have hit: "fst (cache_get py db now NoFault opn ps) = Some v
           \<longleftrightarrow> (\<exists>e\<in>set db. cache_key e = ?key \<and> (\<exists>t. expires_at e = Some t \<and> now < t)
                  \<and> json_loads py (result e) = Inr (Some v))" (is "?lhs \<longleftrightarrow> ?rhs")
  proof
    assume l: ?lhs
    from d show ?rhs
    proof (cases rule: live_rows_cases [where key = ?key and now = now])
      case 1
      with l show ?thesis by (simp add: cache_get_miss)
    next
      case (2 e)
      then have "e \<in> set db \<and> cache_key e = ?key \<and> expires_after now e"
        using filter_singleton_mem [of _ db e] by blast
      moreover from l 2 have "json_loads py (result e) = Inr (Some v)"
        by (simp add: cache_get_hit split: sum.splits)
      ultimately show ?thesis by (auto simp: expires_after_iff)
    qed
  next
    assume ?rhs
    then obtain e where e: "e \<in> set db" "cache_key e = ?key" "expires_after now e"
      and v: "json_loads py (result e) = Inr (Some v)" by (auto simp: expires_after_iff)
    from d e have "?L = [e]" by (rule live_row_unique)
    with v show ?lhs by (simp add: cache_get_hit)
  qed
  have miss: "cache_get py db now NoFault opn ps = (None, db)"
    if "\<forall>e\<in>set db. cache_key e = ?key
          \<longrightarrow> expires_at e = None \<or> (\<exists>t. expires_at e = Some t \<and> t \<le> now)"
  proof -
    from that have "\<forall>e\<in>set db. \<not> (cache_key e = ?key \<and> expires_after now e)"
      by (auto simp: expires_after_iff)
    then have "?L = []" by (simp add: filter_empty_conv)
    then show ?thesis by (rule cache_get_miss)
  qed
  from hit miss show ?thesis by blast
qed


theorem cache_get_returns_witness:
  "\<forall>py :: unit python.
     db_wf [\<lparr>entry_id = 1, operation = ''factorial'', parameters = json_dumps_dict [(''n'', 5)],
             cache_key = generate_cache_key (sha256 py) ''factorial'' [(''n'', 5)],
             result = ''120'', created_at = 0, expires_at = Some 10, hit_count = 0\<rparr>]
     \<and> fst (cache_get py
          [\<lparr>entry_id = 1, operation = ''factorial'', parameters = json_dumps_dict [(''n'', 5)],
             cache_key = generate_cache_key (sha256 py) ''factorial'' [(''n'', 5)],
             result = ''120'', created_at = 0, expires_at = Some 10, hit_count = 0\<rparr>]
          5 NoFault ''factorial'' [(''n'', 5)]) = Some (PyInt 120)
     \<and> cache_get py
          [\<lparr>entry_id = 1, operation = ''factorial'', parameters = json_dumps_dict [(''n'', 5)],
             cache_key = generate_cache_key (sha256 py) ''factorial'' [(''n'', 5)],
             result = ''120'', created_at = 0, expires_at = Some 10, hit_count = 0\<rparr>]
          10 NoFault ''factorial'' [(''n'', 5)]
        = (None,
          [\<lparr>entry_id = 1, operation = ''factorial'', parameters = json_dumps_dict [(''n'', 5)],
             cache_key = generate_cache_key (sha256 py) ''factorial'' [(''n'', 5)],
             result = ''120'', created_at = 0, expires_at = Some 10, hit_count = 0\<rparr>])"
proof
  fix py :: "unit python"
  let ?row = "\<lparr>entry_id = 1, operation = ''factorial'', parameters = json_dumps_dict [(''n'', 5)],
             cache_key = generate_cache_key (sha256 py) ''factorial'' [(''n'', 5)],
             result = ''120'', created_at = 0, expires_at = Some (10 :: int), hit_count = 0\<rparr>"
  have wf: "db_wf [?row]" by (simp add: db_wf_def)
  have loads: "json_loads py ''120'' = Inr (Some (PyInt 120))"
    by (simp add: json_loads_def is_json_int_def is_json_nat_def is_digit_def read_int_def read_nat_def)
  show "db_wf [?row]
     \<and> fst (cache_get py [?row] 5 NoFault ''factorial'' [(''n'', 5)]) = Some (PyInt 120)
     \<and> cache_get py [?row] 10 NoFault ''factorial'' [(''n'', 5)] = (None, [?row])"
    using wf loads
      cache_get_returns [OF wf, of py 5 "''factorial''" "[(''n'', 5)]" "PyInt 120"]
      cache_get_returns [OF wf, of py 10 "''factorial''" "[(''n'', 5)]" "PyInt 120"]
    by simp
qed

text \<open>
  Claim C2 as stated fails for a row without expiry: the condition \<open>expires_at > now\<close> is
  not true of \<open>NULL\<close>, the row is not selected, and \<open>get\<close> returns nothing.
\<close>

theorem cache_get_null_expiry_miss:
  "\<forall>py :: unit python.
     fst (cache_get py
          [\<lparr>entry_id = 1, operation = ''factorial'', parameters = json_dumps_dict [(''n'', 5)],
             cache_key = generate_cache_key (sha256 py) ''factorial'' [(''n'', 5)],
             result = ''120'', created_at = 0, expires_at = None, hit_count = 0\<rparr>]
          5 NoFault ''factorial'' [(''n'', 5)]) = None"
  by (simp add: cache_get_def expires_after_def)

subsection \<open>Rows are kept\<close>

lemma rows_kept_iff:
  "rows_kept db db' \<longleftrightarrow>
     (length db \<le> length db' \<and>
      (\<forall>j<length db. entry_id (db' ! j) = entry_id (db ! j) \<and> cache_key (db' ! j) = cache_key (db ! j)
          \<and> hit_count (db ! j) \<le> hit_count (db' ! j)))"
  by (auto simp: rows_kept_def list_all2_conv_all_nth)

lemma rows_kept_refl: "rows_kept db db"
  by (simp add: rows_kept_iff)

lemma rows_kept_trans: "rows_kept a b \<Longrightarrow> rows_kept b c \<Longrightarrow> rows_kept a c"
  unfolding rows_kept_iff by (metis (no_types, lifting) order_trans less_le_trans)

lemma rows_kept_append: "rows_kept db (db @ es)"
  by (simp add: rows_kept_iff nth_append)

lemma rows_kept_update_row:
  assumes "\<And>r. entry_id (f r) = entry_id r" "\<And>r. cache_key (f r) = cache_key r"
    "\<And>r. hit_count r \<le> hit_count (f r)"
  shows "rows_kept db (update_row i f db)"
  using assms by (simp add: rows_kept_iff update_row_nth)

lemma cache_get_rows_kept: "rows_kept db (snd (cache_get py db now fault opn ps))"
  by (auto simp: cache_get_def Let_def rows_kept_refl split: list.splits sum.splits
      intro!: rows_kept_update_row)

lemma cache_set_rows_kept: "rows_kept db (cache_set py cm db now fault opn ps res ttl_hours)"
  by (auto simp: cache_set_def Let_def rows_kept_refl rows_kept_append split: list.splits
      intro!: rows_kept_update_row)

lemma apply_cache_op_rows_kept: "rows_kept db (apply_cache_op py cm db c)"
  by (cases c) (simp_all add: cache_get_rows_kept cache_set_rows_kept)

lemma run_cache_ops_rows_kept: "rows_kept db (run_cache_ops py cm db ops)"
  unfolding run_cache_ops_def
proof (induction ops arbitrary: db)
  case Nil
  show ?case by (simp add: rows_kept_refl)
next
  case (Cons c ops)
  have "rows_kept db (apply_cache_op py cm db c)" by (rule apply_cache_op_rows_kept)
  moreover have "rows_kept (apply_cache_op py cm db c) (foldl (apply_cache_op py cm) (apply_cache_op py cm db c) ops)"
    by (rule Cons.IH)
  ultimately show ?case by (simp add: rows_kept_trans)
qed


subsection \<open>The constraints of the table are kept\<close>

lemma foldr_max_ge: "x \<in> set xs \<Longrightarrow> x \<le> foldr max xs (0 :: nat)"
  by (induction xs) auto

lemma next_id_fresh: "e \<in> set db \<Longrightarrow> entry_id e < next_id db"
proof -
  assume "e \<in> set db"
  then have "entry_id e \<in> set (map entry_id db)" by simp
  then have "entry_id e \<le> foldr max (map entry_id db) 0" by (rule foldr_max_ge)
  then show ?thesis by (simp add: next_id_def)
qed

lemma update_row_columns:
  assumes "\<And>r. entry_id (f r) = entry_id r" "\<And>r. cache_key (f r) = cache_key r"
  shows "map entry_id (update_row i f db) = map entry_id db"
    and "map cache_key (update_row i f db) = map cache_key db"
  using assms by (simp_all add: update_row_def)

lemma update_row_wf:
  assumes "\<And>r. entry_id (f r) = entry_id r" "\<And>r. cache_key (f r) = cache_key r" "db_wf db"
  shows "db_wf (update_row i f db)"
  using assms by (simp add: db_wf_def update_row_columns)

lemma cache_get_wf: "db_wf db \<Longrightarrow> db_wf (snd (cache_get py db now fault opn ps))"
  by (auto simp: cache_get_def Let_def split: list.splits sum.splits intro!: update_row_wf)

lemma append_row_wf:
  assumes wf: "db_wf db" and none: "filter (\<lambda>e. cache_key e = key) db = []"
    and e: "entry_id e = next_id db" "cache_key e = key"
  shows "db_wf (db @ [e])"
proof -
  from none have "key \<notin> set (map cache_key db)" by (auto simp: filter_empty_conv)
  moreover have "next_id db \<notin> set (map entry_id db)" using next_id_fresh [of _ db] by fastforce
  ultimately show ?thesis using wf e by (simp add: db_wf_def)
qed

lemma cache_set_wf: "db_wf db \<Longrightarrow> db_wf (cache_set py cm db now fault opn ps res ttl_hours)"
  by (auto simp: cache_set_def Let_def split: list.splits intro!: update_row_wf append_row_wf)

lemma run_cache_ops_wf: "db_wf db \<Longrightarrow> db_wf (run_cache_ops py cm db ops)"
  unfolding run_cache_ops_def
proof (induction ops arbitrary: db)
  case Nil
  then show ?case by simp
next
  case (Cons c ops)
  from Cons.prems have "db_wf (apply_cache_op py cm db c)"
    by (cases c) (simp_all add: cache_get_wf cache_set_wf)
  then show ?case using Cons.IH by simp
qed

subsection \<open>What one call changes\<close>

lemma update_row_eq:
  assumes d: "distinct (map entry_id db)" and e: "e \<in> set db"
  shows "update_row (entry_id e) f db = map (\<lambda>r. if r = e then f r else r) db"
proof -
  have "entry_id r = entry_id e \<longleftrightarrow> r = e" if "r \<in> set db" for r
    using d e that by (meson distinct_map inj_onD)
  then show ?thesis by (simp add: update_row_def)
qed

lemma cache_get_live:
  assumes wf: "db_wf db" and e: "e \<in> set db" "cache_key e = generate_cache_key (sha256 py) opn ps"
    "expires_after now e"
  shows "snd (cache_get py db now NoFault opn ps)
           = map (\<lambda>r. if r = e then r\<lparr>hit_count := hit_count r + 1\<rparr> else r) db"
proof -
  from wf have d: "distinct (map cache_key db)" "distinct (map entry_id db)" by (simp_all add: db_wf_def)
  from d(1) e have "filter (\<lambda>e. cache_key e = generate_cache_key (sha256 py) opn ps \<and> expires_after now e) db = [e]"
    by (rule live_row_unique)
  then show ?thesis by (simp add: cache_get_hit update_row_eq [OF d(2) e(1)])
qed

lemma cache_set_existing:
  assumes wf: "db_wf db" and e: "e \<in> set db" "cache_key e = generate_cache_key (sha256 py) opn ps"
  shows "cache_set py cm db now NoFault opn ps res ttl_hours
           = map (\<lambda>r. if r = e
                       then r\<lparr>result := json_dumps py res,
                              expires_at := Some (now + timedelta_hours (ttl_or_default cm ttl_hours)),
                              parameters := json_dumps_dict ps\<rparr>
                       else r) db"
proof -
  from wf have d: "distinct (map cache_key db)" "distinct (map entry_id db)" by (simp_all add: db_wf_def)
  from d(1) e have "filter (\<lambda>e. cache_key e = generate_cache_key (sha256 py) opn ps) db = [e]"
    by (rule filter_unique)
  then show ?thesis by (simp add: cache_set_def Let_def update_row_eq [OF d(2) e(1)])
qed

lemma cache_set_new:
  assumes "\<forall>e\<in>set db. cache_key e \<noteq> generate_cache_key (sha256 py) opn ps"
  shows "cache_set py cm db now NoFault opn ps res ttl_hours
           = db @ [\<lparr>entry_id = next_id db, operation = opn, parameters = json_dumps_dict ps,
                     cache_key = generate_cache_key (sha256 py) opn ps,
                     result = json_dumps py res, created_at = now,
                     expires_at = Some (now + timedelta_hours (ttl_or_default cm ttl_hours)),
                     hit_count = 0\<rparr>]"
proof -
  from assms have "filter (\<lambda>e. cache_key e = generate_cache_key (sha256 py) opn ps) db = []"
    by (simp add: filter_empty_conv)
  then show ?thesis by (simp add: cache_set_def Let_def)
qed

text \<open>
  Claim C9. Through every sequence of \<open>get\<close> and \<open>put\<close> calls, with or without faults of the
  store, every row stays in the table with its \<open>id\<close> and key, and its \<open>hit_count\<close> never
  decreases; the constraints of the table are kept. A \<open>put\<close> for a key without a row
  appends a row with \<open>hit_count = 0\<close>; a \<open>get\<close> that finds the unexpired row of its key
  adds one to the \<open>hit_count\<close> of that row and changes nothing else; a \<open>put\<close> for a key that
  has a row replaces \<open>result\<close>, \<open>expires_at\<close> and \<open>parameters\<close> of that row and leaves its
  \<open>hit_count\<close>, and every other row, as it was.
\<close>

theorem hit_count_monotone:
  "rows_kept db (run_cache_ops py cm db ops)
   \<and> (db_wf db \<longrightarrow> db_wf (run_cache_ops py cm db ops))
   \<and> ((\<forall>r\<in>set db. cache_key r \<noteq> generate_cache_key (sha256 py) opn ps) \<longrightarrow>
        (\<exists>new. cache_set py cm db now NoFault opn ps res ttl_hours = db @ [new] \<and> hit_count new = 0))
   \<and> (db_wf db \<and> e \<in> set db \<and> cache_key e = generate_cache_key (sha256 py) opn ps
        \<and> expires_after now e \<longrightarrow>
        snd (cache_get py db now NoFault opn ps)
          = map (\<lambda>r. if r = e then r\<lparr>hit_count := hit_count r + 1\<rparr> else r) db)
   \<and> (db_wf db \<and> e \<in> set db \<and> cache_key e = generate_cache_key (sha256 py) opn ps \<longrightarrow>
        cache_set py cm db now NoFault opn ps res ttl_hours
          = map (\<lambda>r. if r = e
                      then r\<lparr>result := json_dumps py res,
                             expires_at := Some (now + timedelta_hours (ttl_or_default cm ttl_hours)),
                             parameters := json_dumps_dict ps\<rparr>
                      else r) db)"
proof (intro conjI impI)
  show "rows_kept db (run_cache_ops py cm db ops)" by (rule run_cache_ops_rows_kept)
  show "db_wf (run_cache_ops py cm db ops)" if "db_wf db" using that by (rule run_cache_ops_wf)
  show "\<exists>new. cache_set py cm db now NoFault opn ps res ttl_hours = db @ [new] \<and> hit_count new = 0"
    if "\<forall>r\<in>set db. cache_key r \<noteq> generate_cache_key (sha256 py) opn ps"
    using cache_set_new [OF that] by simp
  show "snd (cache_get py db now NoFault opn ps)
          = map (\<lambda>r. if r = e then r\<lparr>hit_count := hit_count r + 1\<rparr> else r) db"
    if "db_wf db \<and> e \<in> set db \<and> cache_key e = generate_cache_key (sha256 py) opn ps
        \<and> expires_after now e"
    using that by (intro cache_get_live) simp_all
  show "cache_set py cm db now NoFault opn ps res ttl_hours
          = map (\<lambda>r. if r = e
                      then r\<lparr>result := json_dumps py res,
                             expires_at := Some (now + timedelta_hours (ttl_or_default cm ttl_hours)),
                             parameters := json_dumps_dict ps\<rparr>
                      else r) db"
    if "db_wf db \<and> e \<in> set db \<and> cache_key e = generate_cache_key (sha256 py) opn ps"
    using that by (intro cache_set_existing) simp_all
qed


theorem hit_count_monotone_witness:
  "\<forall>py :: unit python.
     (\<exists>new. cache_set py \<lparr>default_ttl_hours = 24\<rparr> [] 0 NoFault ''factorial'' [(''n'', 5)] (PyInt 120) None
              = [new] \<and> hit_count new = 0)
     \<and> snd (cache_get py
          [\<lparr>entry_id = 1, operation = ''factorial'', parameters = json_dumps_dict [(''n'', 5)],
            cache_key = generate_cache_key (sha256 py) ''factorial'' [(''n'', 5)],
            result = ''120'', created_at = 0, expires_at = Some 10, hit_count = 3\<rparr>]
          5 NoFault ''factorial'' [(''n'', 5)])
        = [\<lparr>entry_id = 1, operation = ''factorial'', parameters = json_dumps_dict [(''n'', 5)],
            cache_key = generate_cache_key (sha256 py) ''factorial'' [(''n'', 5)],
            result = ''120'', created_at = 0, expires_at = Some 10, hit_count = 4\<rparr>]
     \<and> map hit_count (cache_set py \<lparr>default_ttl_hours = 24\<rparr>
          [\<lparr>entry_id = 1, operation = ''factorial'', parameters = json_dumps_dict [(''n'', 5)],
            cache_key = generate_cache_key (sha256 py) ''factorial'' [(''n'', 5)],
            result = ''120'', created_at = 0, expires_at = Some 10, hit_count = 3\<rparr>]
          5 NoFault ''factorial'' [(''n'', 5)] (PyInt 121) None) = [3]
     \<and> rows_kept
          [\<lparr>entry_id = 1, operation = ''factorial'', parameters = json_dumps_dict [(''n'', 5)],
            cache_key = generate_cache_key (sha256 py) ''factorial'' [(''n'', 5)],
            result = ''120'', created_at = 0, expires_at = Some 10, hit_count = 3\<rparr>]
          (run_cache_ops py \<lparr>default_ttl_hours = 24\<rparr>
             [\<lparr>entry_id = 1, operation = ''factorial'', parameters = json_dumps_dict [(''n'', 5)],
            cache_key = generate_cache_key (sha256 py) ''factorial'' [(''n'', 5)],
            result = ''120'', created_at = 0, expires_at = Some 10, hit_count = 3\<rparr>]
             [Get 5 NoFault ''factorial'' [(''n'', 5)],
              Put 6 NoFault ''factorial'' [(''n'', 5)] (PyInt 120) (Some 1)])"
proof
  fix py :: "unit python"
  let ?cm = "\<lparr>default_ttl_hours = 24\<rparr>"
  let ?row = "\<lparr>entry_id = 1, operation = ''factorial'', parameters = json_dumps_dict [(''n'', 5)],
            cache_key = generate_cache_key (sha256 py) ''factorial'' [(''n'', 5)],
            result = ''120'', created_at = 0, expires_at = Some (10 :: int), hit_count = 3\<rparr>"
  let ?ops = "[Get 5 NoFault ''factorial'' [(''n'', 5)],
              Put 6 NoFault ''factorial'' [(''n'', 5)] (PyInt 120) (Some 1)] :: unit cache_op list"
  show "(\<exists>new. cache_set py \<lparr>default_ttl_hours = 24\<rparr> [] 0 NoFault ''factorial'' [(''n'', 5)] (PyInt 120) None
              = [new] \<and> hit_count new = 0)
     \<and> snd (cache_get py
          [\<lparr>entry_id = 1, operation = ''factorial'', parameters = json_dumps_dict [(''n'', 5)],
            cache_key = generate_cache_key (sha256 py) ''factorial'' [(''n'', 5)],
            result = ''120'', created_at = 0, expires_at = Some 10, hit_count = 3\<rparr>]
          5 NoFault ''factorial'' [(''n'', 5)])
        = [\<lparr>entry_id = 1, operation = ''factorial'', parameters = json_dumps_dict [(''n'', 5)],
            cache_key = generate_cache_key (sha256 py) ''factorial'' [(''n'', 5)],
            result = ''120'', created_at = 0, expires_at = Some 10, hit_count = 4\<rparr>]
     \<and> map hit_count (cache_set py \<lparr>default_ttl_hours = 24\<rparr>
          [\<lparr>entry_id = 1, operation = ''factorial'', parameters = json_dumps_dict [(''n'', 5)],
            cache_key = generate_cache_key (sha256 py) ''factorial'' [(''n'', 5)],
            result = ''120'', created_at = 0, expires_at = Some 10, hit_count = 3\<rparr>]
          5 NoFault ''factorial'' [(''n'', 5)] (PyInt 121) None) = [3]
     \<and> rows_kept
          [\<lparr>entry_id = 1, operation = ''factorial'', parameters = json_dumps_dict [(''n'', 5)],
            cache_key = generate_cache_key (sha256 py) ''factorial'' [(''n'', 5)],
            result = ''120'', created_at = 0, expires_at = Some 10, hit_count = 3\<rparr>]
          (run_cache_ops py \<lparr>default_ttl_hours = 24\<rparr>
             [\<lparr>entry_id = 1, operation = ''factorial'', parameters = json_dumps_dict [(''n'', 5)],
            cache_key = generate_cache_key (sha256 py) ''factorial'' [(''n'', 5)],
            result = ''120'', created_at = 0, expires_at = Some 10, hit_count = 3\<rparr>]
             [Get 5 NoFault ''factorial'' [(''n'', 5)],
              Put 6 NoFault ''factorial'' [(''n'', 5)] (PyInt 120) (Some 1)])"
    using hit_count_monotone [where db = "[]" and py = py and cm = ?cm and ops = "[]"
        and opn = "''factorial''" and ps = "[(''n'', 5)]" and now = 0 and res = "PyInt 120"
        and ttl_hours = None]
      hit_count_monotone [where db = "[?row]" and py = py and cm = ?cm and ops = ?ops
        and opn = "''factorial''" and ps = "[(''n'', 5)]" and now = 5 and res = "PyInt 121"
        and ttl_hours = None and e = ?row]
    by (simp add: db_wf_def expires_after_def)
qed

section \<open>Properties of the dispatcher\<close>







text \<open>
  Claim C6. For a name that is not a key of the registry, \<open>execute_operation\<close> raises
  \<open>ValueError("Unsupported operation: ...")\<close> before anything else: no operation object
  is executed and the database is neither read nor written, so the service and the cache
  are as before.
\<close>

theorem unknown_operation:
  "operation_name \<notin> set (get_available_operations svc) \<Longrightarrow>
   execute_operation py svc db env operation_name ps use_cache
     = (Inl (ValueError (''Unsupported operation: '' @ operation_name)), svc, db)"
proof -
  assume "operation_name \<notin> set (get_available_operations svc)"
  then have "map_of (operations svc) operation_name = None"
    by (simp add: get_available_operations_def map_of_eq_None_iff)
  then show ?thesis by (simp add: execute_operation_def)
qed

theorem unknown_operation_witness:
  "\<forall>py :: unit python.
     ''sqrt'' \<notin> set (get_available_operations math_service_init)
     \<and> execute_operation py math_service_init []
          \<lparr>get_now = 0, get_fault = NoFault, perf_start = 0, perf_end = 1, set_now = 0, set_fault = NoFault\<rparr>
          ''sqrt'' [(''n'', 4)] True
        = (Inl (ValueError ''Unsupported operation: sqrt''), math_service_init, [])"
proof
  fix py :: "unit python"
  have n: "''sqrt'' \<notin> set (get_available_operations math_service_init)"
    by (simp add: get_available_operations_def math_service_init_def)
  show "''sqrt'' \<notin> set (get_available_operations math_service_init)
     \<and> execute_operation py math_service_init []
          \<lparr>get_now = 0, get_fault = NoFault, perf_start = 0, perf_end = 1, set_now = 0, set_fault = NoFault\<rparr>
          ''sqrt'' [(''n'', 4)] True
        = (Inl (ValueError ''Unsupported operation: sqrt''), math_service_init, [])"
    using n unknown_operation [OF n, of py "[]" _ "[(''n'', 4)]" True] by simp
qed

subsection \<open>A run of the service\<close>










subsection \<open>The same call twice\<close>









end
